theory Spec2Isabelle
  imports Main "HOL-Library.Sublist"
begin

section \<open>Data model\<close>

text \<open>
  A UTC \<^verbatim>\<open>datetime\<close>. The date part (year, month, day) is kept as its proleptic day
  number (\<^verbatim>\<open>date.toordinal()\<close>), so that \<^verbatim>\<open>replace(hour=..., minute=0, second=0,
  microsecond=0)\<close> is a record update that leaves the date alone and
  \<^verbatim>\<open>+ timedelta(days=1)\<close> adds one to the day number. Day numbers are unbounded here
  (Python stops at year 9999).
\<close>

record datetime =
  ordinal :: int
  hour :: nat
  minute :: nat
  second :: nat
  microsecond :: nat

definition valid_datetime :: "datetime \<Rightarrow> bool" where
  "valid_datetime d \<longleftrightarrow> hour d < 24 \<and> minute d < 60 \<and> second d < 60 \<and> microsecond d < 1000000"

text \<open>Microseconds since day number 0: the position of a datetime on the UTC time line.\<close>

definition timestamp :: "datetime \<Rightarrow> int" where
  "timestamp d = ordinal d * 86400000000 + int (hour d) * 3600000000
     + int (minute d) * 60000000 + int (second d) * 1000000 + int (microsecond d)"

text \<open>
  The body of an HTTP response: a JSON object (a dict with string values, as the API of
  the devices sends) or bytes that are not JSON, on which \<^verbatim>\<open>response.json()\<close> raises.
\<close>

datatype body = Json "string \<rightharpoonup> string" | Raw string

record response =
  status_code :: int
  content :: body

text \<open>What \<^verbatim>\<open>requests.post\<close> does: raise a \<^verbatim>\<open>RequestException\<close> or return a response.\<close>

datatype post_result = Raised | Responded response

text \<open>The exceptions that can leave a method of the class.\<close>

datatype exn = JSONDecodeError | AttributeError | RecursionError | ValueError

text \<open>
  What \<^verbatim>\<open>make_request\<close> returns: a response object, the string \<^verbatim>\<open>'unauthorized'\<close>,
  or \<^verbatim>\<open>None\<close>.
\<close>

datatype ret = Ret_response response | Ret_unauthorized | Ret_none

text \<open>
  The lines the methods print and log about the outcome of an operation, one constructor
  per message of the source (the debug and warning lines inside \<^verbatim>\<open>make_request\<close> are
  not recorded).
\<close>

datatype message =
    Logged_in string
  | Login_no_token string
  | Login_failed string
  | Logged_out string
  | Logout_failed string
  | Unauthorized_token string
  | Profile_set string string
  | Profile_failed string
  | Curtail_set string string
  | Curtail_failed string
  | Error_curtail string exn
  | Error_profile string exn
  | Error_logout string exn
  | No_token_received string
  | Error_processing string exn
  | Completed_cycle int

text \<open>
  Everything observable a run does, in order: HTTP posts, sleeps (the backoff in whole
  seconds, the scheduler's sleep as a time difference in microseconds), the methods
  entered and the messages reported.
\<close>

datatype event =
    Post string "(string \<times> string) list"
  | Sleep nat
  | Sleep_until int
  | Call_login string
  | Call_logout string
  | Call_set_profile string string string
  | Call_set_curtail string string string
  | Report message

record token_info =
  token :: string
  ttl :: "string option"

text \<open>
  The object and its environment. \<open>miner_ips\<close>, \<open>base_url\<close>, \<open>max_retries\<close> and
  \<open>miner_tokens\<close> are the attributes of \<^verbatim>\<open>MinerControlApp\<close>. The environment is
  deterministic: \<open>net k url data\<close> is the outcome of the \<open>k\<close>-th HTTP post of the run when
  it is sent to \<open>url\<close> with \<open>data\<close>, \<open>clock k\<close> is what the \<open>k\<close>-th call of
  \<^verbatim>\<open>datetime.now(timezone.utc)\<close> returns; \<open>posts\<close> and \<open>reads\<close> count the calls made so
  far and \<open>trace\<close> records the events.
\<close>

record app =
  miner_ips :: "string list"
  base_url :: string
  max_retries :: int
  miner_tokens :: "string \<rightharpoonup> token_info"
  net :: "nat \<Rightarrow> string \<Rightarrow> (string \<times> string) list \<Rightarrow> post_result"
  posts :: nat
  clock :: "nat \<Rightarrow> datetime"
  reads :: nat
  trace :: "event list"

definition emit :: "event \<Rightarrow> app \<Rightarrow> app" where
  "emit e s = s\<lparr>trace := trace s @ [e]\<rparr>"

definition requests_post :: "string \<Rightarrow> (string \<times> string) list \<Rightarrow> app \<Rightarrow> post_result \<times> app" where
  "requests_post url data s =
     (net s (posts s) url data, emit (Post url data) (s\<lparr>posts := Suc (posts s)\<rparr>))"

definition time_sleep :: "nat \<Rightarrow> app \<Rightarrow> app" where
  "time_sleep secs s = emit (Sleep secs) s"

definition now_utc :: "app \<Rightarrow> datetime \<times> app" where
  "now_utc s = (clock s (reads s), s\<lparr>reads := Suc (reads s)\<rparr>)"

section \<open>Request executor: \<^verbatim>\<open>make_request\<close>\<close>

text \<open>Python's \<^verbatim>\<open>sub in s\<close> on strings.\<close>

fun str_in :: "string \<Rightarrow> string \<Rightarrow> bool" where
  "str_in sub [] = (sub = [])"
| "str_in sub (c # cs) = (prefix sub (c # cs) \<or> str_in sub cs)"

text \<open>
  \<^verbatim>\<open>bool(response)\<close> of a \<^verbatim>\<open>requests.Response\<close> is its \<^verbatim>\<open>ok\<close>: no 4xx or 5xx
  status.
\<close>

definition ok :: "response \<Rightarrow> bool" where
  "ok r \<longleftrightarrow> \<not> (400 \<le> status_code r \<and> status_code r < 600)"

fun truthy :: "ret \<Rightarrow> bool" where
  "truthy (Ret_response r) = ok r"
| "truthy Ret_unauthorized = True"
| "truthy Ret_none = False"

text \<open>\<^verbatim>\<open>response_json.get('message', '')\<close>.\<close>

definition get_message :: "(string \<rightharpoonup> string) \<Rightarrow> string" where
  "get_message response_json = (case response_json ''message'' of None \<Rightarrow> [] | Some m \<Rightarrow> m)"

text \<open>
  The response handed back for an ignored error: the same object with
  \<^verbatim>\<open>status_code = 100\<close> and its content replaced.
\<close>

definition ignored :: "response \<Rightarrow> response" where
  "ignored r = r\<lparr>status_code := 100, content := Raw ''Ignoring error due to it is being set already''\<rparr>"

text \<open>
  The loop \<^verbatim>\<open>for attempt in range(retries)\<close>: the first argument counts the iterations
  left, \<open>attempt\<close> is the loop variable. A non-200 response whose body is not JSON makes
  \<^verbatim>\<open>response.json()\<close> raise \<^verbatim>\<open>requests.exceptions.JSONDecodeError\<close>, which is a
  \<^verbatim>\<open>RequestException\<close> (requests 2.27 and later) and is caught like a transport error.
  Every path that does not return reaches \<^verbatim>\<open>time.sleep(2 ** attempt)\<close>.
\<close>

fun attempts :: "nat \<Rightarrow> nat \<Rightarrow> string \<Rightarrow> (string \<times> string) list \<Rightarrow> bool \<Rightarrow> string list
    \<Rightarrow> app \<Rightarrow> ret \<times> app" where
  "attempts 0 attempt url data re_login_on_unauthorized ignore_errors s = (Ret_none, s)"
| "attempts (Suc left) attempt url data re_login_on_unauthorized ignore_errors s =
     (case requests_post url data s of
        (Raised, s1) \<Rightarrow>
          attempts left (Suc attempt) url data re_login_on_unauthorized ignore_errors
            (time_sleep (2 ^ attempt) s1)
      | (Responded r, s1) \<Rightarrow>
          if status_code r = 200 then (Ret_response r, s1)
          else (case content r of
                  Raw _ \<Rightarrow>
                    attempts left (Suc attempt) url data re_login_on_unauthorized ignore_errors
                      (time_sleep (2 ^ attempt) s1)
                | Json response_json \<Rightarrow>
                    if list_ex (\<lambda>error. str_in error (get_message response_json)) ignore_errors
                    then (Ret_response (ignored r), s1)
                    else if status_code r = 401 \<and> re_login_on_unauthorized
                    then (Ret_unauthorized, s1)
                    else attempts left (Suc attempt) url data re_login_on_unauthorized
                           ignore_errors (time_sleep (2 ^ attempt) s1)))"

definition make_request :: "string \<Rightarrow> (string \<times> string) list \<Rightarrow> int \<Rightarrow> bool \<Rightarrow> string list
    \<Rightarrow> app \<Rightarrow> ret \<times> app" where
  "make_request url data retries re_login_on_unauthorized ignore_errors s =
     attempts (nat retries) 0 url data re_login_on_unauthorized ignore_errors s"

section \<open>Session manager: \<^verbatim>\<open>login\<close> and \<^verbatim>\<open>logout\<close>\<close>

text \<open>Truth value of \<^verbatim>\<open>token_data.get('token')\<close>: neither \<^verbatim>\<open>None\<close> nor empty.\<close>

fun nonempty :: "string option \<Rightarrow> bool" where
  "nonempty None = False"
| "nonempty (Some t) = (t \<noteq> [])"

definition login :: "string \<Rightarrow> app \<Rightarrow> (exn + string option) \<times> app" where
  "login miner_ip s0 =
     (let s = emit (Call_login miner_ip) s0;
          url = base_url s @ ''/login'';
          data = [(''miner_ip'', miner_ip)]
      in case make_request url data (max_retries s) False [] s of
           (Ret_none, s1) \<Rightarrow> (Inr None, emit (Report (Login_failed miner_ip)) s1)
         | (Ret_unauthorized, s1) \<Rightarrow> (Inl AttributeError, s1)
         | (Ret_response r, s1) \<Rightarrow>
             if ok r then
               (case content r of
                  Raw _ \<Rightarrow> (Inl JSONDecodeError, s1)
                | Json token_data \<Rightarrow>
                    if nonempty (token_data ''token'') then
                      (Inr (token_data ''token''),
                       emit (Report (Logged_in miner_ip))
                         (s1\<lparr>miner_tokens := (miner_tokens s1)
                             (miner_ip \<mapsto> \<lparr>token = the (token_data ''token''),
                                            ttl = token_data ''ttl''\<rparr>)\<rparr>))
                    else (Inr None, emit (Report (Login_no_token miner_ip)) s1))
             else (Inr None, emit (Report (Login_failed miner_ip)) s1))"

definition logout :: "string \<Rightarrow> app \<Rightarrow> (exn + unit) \<times> app" where
  "logout miner_ip s0 =
     (let s = emit (Call_logout miner_ip) s0;
          url = base_url s @ ''/logout'';
          data = [(''miner_ip'', miner_ip)]
      in case make_request url data (max_retries s) False [] s of
           (response, s1) \<Rightarrow>
             if truthy response then
               (Inr (),
                emit (Report (Logged_out miner_ip))
                  (s1\<lparr>miner_tokens :=
                        (case miner_tokens s1 miner_ip of
                           None \<Rightarrow> miner_tokens s1
                         | Some _ \<Rightarrow> (miner_tokens s1)(miner_ip := None))\<rparr>))
             else (Inr (), emit (Report (Logout_failed miner_ip)) s1))"

section \<open>Setters: \<^verbatim>\<open>set_profile\<close> and \<^verbatim>\<open>set_curtail\<close>\<close>

text \<open>
  Both setters call themselves after a successful re-login. \<open>depth\<close> is the number of
  further nested calls the interpreter's recursion limit allows: the call that would
  exceed it raises \<^verbatim>\<open>RecursionError\<close>.
\<close>

fun set_profile :: "nat \<Rightarrow> string \<Rightarrow> string \<Rightarrow> string \<Rightarrow> app \<Rightarrow> (exn + unit) \<times> app" where
  "set_profile depth miner_ip tok profile s0 =
     (let s = emit (Call_set_profile miner_ip tok profile) s0;
          url = base_url s @ ''/profileset'';
          data = [(''token'', tok), (''profile'', profile)]
      in case make_request url data (max_retries s) True [''Miner is already in''] s of
           (Ret_unauthorized, s1) \<Rightarrow>
             (case login miner_ip (emit (Report (Unauthorized_token miner_ip)) s1) of
                (Inl e, s2) \<Rightarrow> (Inl e, s2)
              | (Inr new_token, s2) \<Rightarrow>
                  if nonempty new_token then
                    (case depth of
                       0 \<Rightarrow> (Inl RecursionError, s2)
                     | Suc d \<Rightarrow> set_profile d miner_ip (the new_token) profile s2)
                  else (Inr (), s2))
         | (response, s1) \<Rightarrow>
             if truthy response then (Inr (), emit (Report (Profile_set miner_ip profile)) s1)
             else (Inr (), emit (Report (Profile_failed miner_ip)) s1))"

fun set_curtail :: "nat \<Rightarrow> string \<Rightarrow> string \<Rightarrow> string \<Rightarrow> app \<Rightarrow> (exn + unit) \<times> app" where
  "set_curtail depth miner_ip tok mode s0 =
     (let s = emit (Call_set_curtail miner_ip tok mode) s0;
          url = base_url s @ ''/curtail'';
          data = [(''token'', tok), (''mode'', mode)]
      in case make_request url data (max_retries s) True [''Miner is already in''] s of
           (Ret_unauthorized, s1) \<Rightarrow>
             (case login miner_ip (emit (Report (Unauthorized_token miner_ip)) s1) of
                (Inl e, s2) \<Rightarrow> (Inl e, s2)
              | (Inr new_token, s2) \<Rightarrow>
                  if nonempty new_token then
                    (case depth of
                       0 \<Rightarrow> (Inl RecursionError, s2)
                     | Suc d \<Rightarrow> set_curtail d miner_ip (the new_token) mode s2)
                  else (Inr (), s2))
         | (response, s1) \<Rightarrow>
             if truthy response then (Inr (), emit (Report (Curtail_set miner_ip mode)) s1)
             else (Inr (), emit (Report (Curtail_failed miner_ip)) s1))"

text \<open>The equations of the setters call themselves: they are unfolded by hand.\<close>

declare set_profile.simps [simp del]
declare set_curtail.simps [simp del]

section \<open>Schedule resolver: \<^verbatim>\<open>determine_mode\<close>\<close>

text \<open>
  The method reads the clock twice: once for \<^verbatim>\<open>current_hour\<close> and once more for the
  datetime whose fields it replaces.
\<close>

definition determine_mode :: "app \<Rightarrow> (string \<times> string \<times> datetime) \<times> app" where
  "determine_mode s =
     (let (t1, s1) = now_utc s;
          current_hour = hour t1;
          (t2, s2) = now_utc s1
      in if 0 \<le> current_hour \<and> current_hour < 6 then
           ((''overclock'', ''active'', t2\<lparr>hour := 6, minute := 0, second := 0, microsecond := 0\<rparr>), s2)
         else if 6 \<le> current_hour \<and> current_hour < 12 then
           ((''normal'', ''active'', t2\<lparr>hour := 12, minute := 0, second := 0, microsecond := 0\<rparr>), s2)
         else if 12 \<le> current_hour \<and> current_hour < 18 then
           ((''underclock'', ''active'', t2\<lparr>hour := 18, minute := 0, second := 0, microsecond := 0\<rparr>), s2)
         else
           ((''normal'', ''sleep'',
             (t2\<lparr>hour := 0, minute := 0, second := 0, microsecond := 0\<rparr>)
               \<lparr>ordinal := ordinal t2 + 1\<rparr>), s2))"

section \<open>Device cycle runner: \<^verbatim>\<open>process_miner\<close>\<close>

text \<open>
  \<^verbatim>\<open>try: ... except Exception as e: self.logger.error(...)\<close> around one call: the
  exception is reported and the run goes on.
\<close>

definition caught :: "(exn \<Rightarrow> message) \<Rightarrow> (exn + unit) \<times> app \<Rightarrow> app" where
  "caught msg r = (case r of (Inl e, s) \<Rightarrow> emit (Report (msg e)) s | (Inr _, s) \<Rightarrow> s)"

definition process_miner :: "nat \<Rightarrow> string \<Rightarrow> app \<Rightarrow> (exn + unit) \<times> app" where
  "process_miner depth miner_ip s =
     (case login miner_ip s of
        (Inl e, s1) \<Rightarrow> (Inr (), emit (Report (Error_processing miner_ip e)) s1)
      | (Inr tok, s1) \<Rightarrow>
          if nonempty tok then
            (case determine_mode s1 of
               ((profile, curtail_mode, _), s2) \<Rightarrow>
                 let s3 = caught (Error_curtail miner_ip)
                            (set_curtail depth miner_ip (the tok) curtail_mode s2);
                     s4 = caught (Error_profile miner_ip)
                            (set_profile depth miner_ip (the tok) profile s3);
                     s5 = caught (Error_logout miner_ip) (logout miner_ip s4)
                 in (Inr (), s5))
          else (Inr (), emit (Report (No_token_received miner_ip)) s1))"

section \<open>Fleet scheduler: \<^verbatim>\<open>start\<close>\<close>

text \<open>
  \<^verbatim>\<open>executor.map(self.process_miner, self.miner_ips)\<close> inside the \<^verbatim>\<open>with\<close> block: every
  device is processed and the block waits for all of them; the results are never read,
  so nothing a worker raises reaches the scheduler. The workers are run here one after
  the other in the order of the inventory (the schedule of a pool with one worker).
\<close>

fun executor_map :: "nat \<Rightarrow> string list \<Rightarrow> app \<Rightarrow> app" where
  "executor_map depth [] s = s"
| "executor_map depth (miner_ip # rest) s =
     executor_map depth rest (snd (process_miner depth miner_ip s))"

text \<open>
  \<^verbatim>\<open>time.sleep(sleep_time)\<close> with the difference of two datetimes: a negative argument
  raises \<^verbatim>\<open>ValueError\<close>. The duration is kept in microseconds.
\<close>

definition sleep_until :: "int \<Rightarrow> app \<Rightarrow> (exn + unit) \<times> app" where
  "sleep_until sleep_time s =
     (if sleep_time < 0 then (Inl ValueError, s) else (Inr (), emit (Sleep_until sleep_time) s))"

text \<open>
  The loop \<^verbatim>\<open>while True\<close> of \<^verbatim>\<open>start\<close>. It can run forever, so the first argument
  bounds the number of cycles looked at: \<open>None\<close> says that the loop is still running
  after that many cycles. \<open>cycles\<close> is the optional argument of the method and
  \<open>cycle_count\<close> its counter.
\<close>

fun cycle_loop :: "nat \<Rightarrow> nat \<Rightarrow> int option \<Rightarrow> int \<Rightarrow> app \<Rightarrow> ((exn + unit) \<times> app) option" where
  "cycle_loop 0 depth cycles cycle_count s = None"
| "cycle_loop (Suc fuel) depth cycles cycle_count s =
     (case determine_mode s of
        ((profile, curtail_mode, next_transition), s1) \<Rightarrow>
          let s2 = executor_map depth (miner_ips s1) s1;
              (t, s3) = now_utc s2;
              sleep_time = timestamp next_transition - timestamp t;
              (current_time, s4) = now_utc s3;
              s5 = emit (Report (Completed_cycle sleep_time)) s4;
              cycle_count' = (if cycles \<noteq> None then cycle_count + 1 else cycle_count)
          in if cycles \<noteq> None \<and> cycle_count' \<ge> the cycles then Some (Inr (), s5)
             else (case sleep_until sleep_time s5 of
                     (Inl e, s6) \<Rightarrow> Some (Inl e, s6)
                   | (Inr _, s6) \<Rightarrow> cycle_loop fuel depth cycles cycle_count' s6))"

definition start :: "nat \<Rightarrow> nat \<Rightarrow> int option \<Rightarrow> app \<Rightarrow> ((exn + unit) \<times> app) option" where
  "start fuel depth cycles s = cycle_loop fuel depth cycles 0 s"

section \<open>Vocabulary of the properties\<close>

text \<open>The three components of what \<^verbatim>\<open>determine_mode\<close> returns.\<close>

definition profile_of :: "(string \<times> string \<times> datetime) \<times> app \<Rightarrow> string" where
  "profile_of r = fst (fst r)"

definition curtail_mode_of :: "(string \<times> string \<times> datetime) \<times> app \<Rightarrow> string" where
  "curtail_mode_of r = fst (snd (fst r))"

definition next_transition_of :: "(string \<times> string \<times> datetime) \<times> app \<Rightarrow> datetime" where
  "next_transition_of r = snd (snd (fst r))"

text \<open>
  The start of the band after the one \<open>t\<close> lies in, as a point of the time line: the least
  multiple of six hours (21600000000 microseconds) that is greater than \<open>timestamp t\<close>.
\<close>

definition next_band_start :: "datetime \<Rightarrow> int" where
  "next_band_start t = (timestamp t div 21600000000 + 1) * 21600000000"

text \<open>The method calls recorded in the trace, in order.\<close>

fun is_call :: "event \<Rightarrow> bool" where
  "is_call (Call_login _) = True"
| "is_call (Call_logout _) = True"
| "is_call (Call_set_profile _ _ _) = True"
| "is_call (Call_set_curtail _ _ _) = True"
| "is_call _ = False"

definition calls :: "app \<Rightarrow> event list" where
  "calls s = filter is_call (trace s)"

text \<open>
  An attempt that ends neither in success, nor in the ignored outcome, nor in
  \<^verbatim>\<open>'unauthorized'\<close>: the post raised, or the response is not a 200 and its body is not
  JSON, or its message has none of the strings to ignore and it is not a 401 with
  \<^verbatim>\<open>re_login_on_unauthorized\<close> set.
\<close>

fun retriable :: "bool \<Rightarrow> string list \<Rightarrow> post_result \<Rightarrow> bool" where
  "retriable re_login_on_unauthorized ignore_errors Raised = True"
| "retriable re_login_on_unauthorized ignore_errors (Responded r) =
     (status_code r \<noteq> 200 \<and>
      (case content r of
         Raw _ \<Rightarrow> True
       | Json response_json \<Rightarrow>
           \<not> list_ex (\<lambda>error. str_in error (get_message response_json)) ignore_errors
           \<and> \<not> (status_code r = 401 \<and> re_login_on_unauthorized)))"

text \<open>
  The events of \<open>n\<close> failed attempts, the first with loop variable \<open>a\<close>: each one is a post
  followed by a sleep of \<open>2 ^ i\<close> seconds, \<open>i\<close> being its loop variable.
\<close>

definition failed_attempts :: "string \<Rightarrow> (string \<times> string) list \<Rightarrow> nat \<Rightarrow> nat \<Rightarrow> event list" where
  "failed_attempts url data a n = concat (map (\<lambda>i. [Post url data, Sleep (2 ^ i)]) [a..<a + n])"

text \<open>The request each method sends, from the state in which the method is entered.\<close>

definition login_request :: "string \<Rightarrow> app \<Rightarrow> ret \<times> app" where
  "login_request miner_ip s =
     make_request (base_url s @ ''/login'') [(''miner_ip'', miner_ip)] (max_retries s) False []
       (emit (Call_login miner_ip) s)"

definition logout_request :: "string \<Rightarrow> app \<Rightarrow> ret \<times> app" where
  "logout_request miner_ip s =
     make_request (base_url s @ ''/logout'') [(''miner_ip'', miner_ip)] (max_retries s) False []
       (emit (Call_logout miner_ip) s)"

definition profile_request :: "string \<Rightarrow> string \<Rightarrow> string \<Rightarrow> app \<Rightarrow> ret \<times> app" where
  "profile_request miner_ip tok profile s =
     make_request (base_url s @ ''/profileset'') [(''token'', tok), (''profile'', profile)]
       (max_retries s) True [''Miner is already in'']
       (emit (Call_set_profile miner_ip tok profile) s)"

definition curtail_request :: "string \<Rightarrow> string \<Rightarrow> string \<Rightarrow> app \<Rightarrow> ret \<times> app" where
  "curtail_request miner_ip tok mode s =
     make_request (base_url s @ ''/curtail'') [(''token'', tok), (''mode'', mode)]
       (max_retries s) True [''Miner is already in'']
       (emit (Call_set_curtail miner_ip tok mode) s)"

text \<open>Inputs for concrete runs: 2024-01-01 at a given hour, and an app with one device whose
  posts all raise.\<close>

definition at_hour :: "nat \<Rightarrow> datetime" where
  "at_hour h = \<lparr>ordinal = 738886, hour = h, minute = 0, second = 0, microsecond = 0\<rparr>"

definition test_app :: app where
  "test_app = \<lparr>miner_ips = [''192.168.0.1''], base_url = ''http://127.0.0.1:5000/api'',
     max_retries = 3, miner_tokens = Map.empty, net = (\<lambda>k url data. Raised), posts = 0,
     clock = (\<lambda>k. at_hour 5), reads = 0, trace = []\<rparr>"

text \<open>
  Devices for concrete runs, in the manner of the mocks of the test suite: \<open>resp\<close> builds a
  response with a status and a JSON object, \<open>replies\<close> answers the \<open>k\<close>-th post with the
  \<open>k\<close>-th entry of a list (and raises once the list is used up).
\<close>

definition resp :: "int \<Rightarrow> (string \<times> string) list \<Rightarrow> post_result" where
  "resp code json_data = Responded \<lparr>status_code = code, content = Json (map_of json_data)\<rparr>"

definition replies :: "post_result list \<Rightarrow> nat \<Rightarrow> string \<Rightarrow> (string \<times> string) list \<Rightarrow> post_result" where
  "replies rs k url data = (if k < length rs then rs ! k else Raised)"

definition already_set_app :: app where
  "already_set_app = test_app\<lparr>net := replies [resp 400 [(''message'', ''Miner is already in normal profile.'')]]\<rparr>"

definition already_set_401_app :: app where
  "already_set_401_app = test_app\<lparr>net := replies [resp 401 [(''message'', ''Miner is already in active mode.'')]]\<rparr>"

definition login_no_ttl_app :: app where
  "login_no_ttl_app = test_app\<lparr>net := replies [resp 200 [(''token'', ''test_token'')]]\<rparr>"

definition login_missing_token_app :: app where
  "login_missing_token_app = test_app\<lparr>net := replies [resp 200 [(''ttl'', ''2024-01-01T00:01:00'')]]\<rparr>"

definition logged_in_app :: app where
  "logged_in_app = test_app\<lparr>miner_tokens := [''192.168.0.1'' \<mapsto> \<lparr>token = ''test_token'', ttl = None\<rparr>]\<rparr>"











text \<open>A clock that reads 05:59:58 in \<^verbatim>\<open>determine_mode\<close> and 06:00:05 once the batch is done
  (with \<open>test_app\<close> the one device fails its login after backoffs of 1, 2 and 4 seconds).\<close>

definition overrun_app :: app where
  "overrun_app = test_app\<lparr>clock := \<lambda>k.
     if k < 2 then \<lparr>ordinal = 738886, hour = 5, minute = 59, second = 58, microsecond = 0\<rparr>
     else \<lparr>ordinal = 738886, hour = 6, minute = 0, second = 5, microsecond = 0\<rparr>\<rparr>"

text \<open>A clock whose two readings in \<^verbatim>\<open>determine_mode\<close> lie on either side of midnight:
  23:59:59.999999 on 2024-01-01, then 00:00:00.000001 on 2024-01-02.\<close>

definition midnight_between_readings_app :: app where
  "midnight_between_readings_app = test_app\<lparr>clock := \<lambda>k.
     if k = 0 then \<lparr>ordinal = 738886, hour = 23, minute = 59, second = 59, microsecond = 999999\<rparr>
     else \<lparr>ordinal = 738887, hour = 0, minute = 0, second = 0, microsecond = 1\<rparr>\<rparr>"

text \<open>A device whose first post raises and whose second answers 401 with a message to
  ignore, and one that answers 401 to a setter and sends a body that is not JSON to the
  login that follows.\<close>

definition raised_then_401_app :: app where
  "raised_then_401_app = test_app\<lparr>net := replies
     [Raised, resp 401 [(''message'', ''Miner is already in normal profile.'')]]\<rparr>"


section \<open>Properties of the schedule resolver\<close>

lemma band_div:
  fixes d :: int and h m sec us :: nat
  assumes "h < 24" "m < 60" "sec < 60" "us < 1000000"
  shows "(d * 86400000000 + int h * 3600000000 + int m * 60000000 + int sec * 1000000 + int us) div 21600000000
       = d * 4 + int (h div 6)"
proof -
  define r where "r = int (h mod 6) * 3600000000 + int m * 60000000 + int sec * 1000000 + int us"
  have h: "int h = int (h div 6) * 6 + int (h mod 6)"
    by (metis div_mult_mod_eq of_nat_add of_nat_mult of_nat_numeral)
  have "h mod 6 < 6" by simp
  then have "int (h mod 6) \<le> 5" by linarith
  then have r: "0 \<le> r" "r < 21600000000" using assms by (auto simp: r_def)
  have "d * 86400000000 + int h * 3600000000 + int m * 60000000 + int sec * 1000000 + int us
       = (d * 4 + int (h div 6)) * 21600000000 + r"
    unfolding r_def by (subst h) (simp add: algebra_simps)
  then show ?thesis using r by (simp add: div_pos_pos_trivial)
qed

lemma determine_mode_same_date:
  assumes v: "valid_datetime t1" and r1: "clock s (reads s) = t1"
    and r2: "clock s (Suc (reads s)) = t2" and d: "ordinal t2 = ordinal t1"
  shows "timestamp t1 < timestamp (next_transition_of (determine_mode s))"
    and "timestamp (next_transition_of (determine_mode s)) = next_band_start t1"
    and "valid_datetime (next_transition_of (determine_mode s))"
    and "hour t1 < 18 \<Longrightarrow> next_transition_of (determine_mode s)
           = \<lparr>ordinal = ordinal t1, hour = 6 * (hour t1 div 6 + 1), minute = 0, second = 0, microsecond = 0\<rparr>"
    and "18 \<le> hour t1 \<Longrightarrow> next_transition_of (determine_mode s)
           = \<lparr>ordinal = ordinal t1 + 1, hour = 0, minute = 0, second = 0, microsecond = 0\<rparr>"
proof -
  let ?n = "next_transition_of (determine_mode s)"
  have hv: "hour t1 < 24" "minute t1 < 60" "second t1 < 60" "microsecond t1 < 1000000"
    using v by (simp_all add: valid_datetime_def)
  have lo: "hour t1 < 18 \<Longrightarrow> ?n
      = \<lparr>ordinal = ordinal t1, hour = 6 * (hour t1 div 6 + 1), minute = 0, second = 0, microsecond = 0\<rparr>"
  proof -
    assume a: "hour t1 < 18"
    consider "hour t1 < 6" | "6 \<le> hour t1" "hour t1 < 12" | "12 \<le> hour t1" "hour t1 < 18"
      using a by linarith
    then show ?thesis
    proof cases
      case 1
      then have "hour t1 div 6 = 0" by simp
      with 1 show ?thesis using r1 r2 d
        by (simp add: determine_mode_def now_utc_def next_transition_of_def)
    next
      case 2
      then have "hour t1 div 6 = 1" by presburger
      with 2 show ?thesis using r1 r2 d
        by (simp add: determine_mode_def now_utc_def next_transition_of_def)
    next
      case 3
      then have "hour t1 div 6 = 2" by presburger
      with 3 show ?thesis using r1 r2 d
        by (simp add: determine_mode_def now_utc_def next_transition_of_def)
    qed
  qed
  have hi: "18 \<le> hour t1 \<Longrightarrow> ?n
      = \<lparr>ordinal = ordinal t1 + 1, hour = 0, minute = 0, second = 0, microsecond = 0\<rparr>"
    using r1 r2 d by (simp add: determine_mode_def now_utc_def next_transition_of_def)
  have ts: "timestamp t1 div 21600000000 = ordinal t1 * 4 + int (hour t1 div 6)"
    unfolding timestamp_def using hv by (rule band_div)
  have rest: "int (minute t1) * 60000000 + int (second t1) * 1000000 + int (microsecond t1) < 3600000000"
    using hv by linarith
  show "hour t1 < 18 \<Longrightarrow> ?n
      = \<lparr>ordinal = ordinal t1, hour = 6 * (hour t1 div 6 + 1), minute = 0, second = 0, microsecond = 0\<rparr>"
    by (rule lo)
  show "18 \<le> hour t1 \<Longrightarrow> ?n
      = \<lparr>ordinal = ordinal t1 + 1, hour = 0, minute = 0, second = 0, microsecond = 0\<rparr>"
    by (rule hi)
  show "valid_datetime ?n"
  proof (cases "hour t1 < 18")
    case True
    then have "6 * (hour t1 div 6 + 1) < 24" by presburger
    then show ?thesis using lo [OF True] by (simp add: valid_datetime_def)
  next
    case False
    then show ?thesis using hi by (simp add: valid_datetime_def)
  qed
  show eq: "timestamp ?n = next_band_start t1"
  proof (cases "hour t1 < 18")
    case True
    show ?thesis unfolding next_band_start_def ts lo [OF True]
      by (simp add: timestamp_def algebra_simps)
  next
    case False
    then have "hour t1 div 6 = 3" using hv by presburger
    moreover have "18 \<le> hour t1" using False by simp
    ultimately show ?thesis unfolding next_band_start_def ts
      by (simp add: hi timestamp_def algebra_simps)
  qed
  have "timestamp t1 < (timestamp t1 div 21600000000 + 1) * 21600000000"
    using div_mult_mod_eq [of "timestamp t1" 21600000000]
      pos_mod_bound [of 21600000000 "timestamp t1"] by (simp add: algebra_simps)
  then show "timestamp t1 < timestamp ?n" unfolding eq next_band_start_def .
qed

text \<open>
  C4. For every hour of the day, \<^verbatim>\<open>determine_mode\<close> returns profile overclock and curtail
  mode active when the hour it reads is in [0,6), normal and active in [6,12), underclock
  and active in [12,18), and normal and sleep in [18,24).
\<close>

theorem determine_mode_bands:
  fixes s :: app
  defines "h \<equiv> hour (clock s (reads s))"
  shows "(h < 6 \<longrightarrow> profile_of (determine_mode s) = ''overclock'' \<and> curtail_mode_of (determine_mode s) = ''active'')
   \<and> (6 \<le> h \<and> h < 12 \<longrightarrow> profile_of (determine_mode s) = ''normal'' \<and> curtail_mode_of (determine_mode s) = ''active'')
   \<and> (12 \<le> h \<and> h < 18 \<longrightarrow> profile_of (determine_mode s) = ''underclock'' \<and> curtail_mode_of (determine_mode s) = ''active'')
   \<and> (18 \<le> h \<and> h < 24 \<longrightarrow> profile_of (determine_mode s) = ''normal'' \<and> curtail_mode_of (determine_mode s) = ''sleep'')"
  unfolding h_def
  by (simp add: determine_mode_def now_utc_def profile_of_def curtail_mode_of_def)

theorem determine_mode_bands_witness:
  "profile_of (determine_mode (test_app\<lparr>clock := \<lambda>k. at_hour 5\<rparr>)) = ''overclock''
   \<and> curtail_mode_of (determine_mode (test_app\<lparr>clock := \<lambda>k. at_hour 5\<rparr>)) = ''active''
   \<and> profile_of (determine_mode (test_app\<lparr>clock := \<lambda>k. at_hour 7\<rparr>)) = ''normal''
   \<and> curtail_mode_of (determine_mode (test_app\<lparr>clock := \<lambda>k. at_hour 7\<rparr>)) = ''active''
   \<and> profile_of (determine_mode (test_app\<lparr>clock := \<lambda>k. at_hour 13\<rparr>)) = ''underclock''
   \<and> curtail_mode_of (determine_mode (test_app\<lparr>clock := \<lambda>k. at_hour 13\<rparr>)) = ''active''
   \<and> profile_of (determine_mode (test_app\<lparr>clock := \<lambda>k. at_hour 20\<rparr>)) = ''normal''
   \<and> curtail_mode_of (determine_mode (test_app\<lparr>clock := \<lambda>k. at_hour 20\<rparr>)) = ''sleep''"
proof -
  have h: "hour (at_hour 5) < 6" "6 \<le> hour (at_hour 7) \<and> hour (at_hour 7) < 12"
    "12 \<le> hour (at_hour 13) \<and> hour (at_hour 13) < 18"
    "18 \<le> hour (at_hour 20) \<and> hour (at_hour 20) < 24"
    by (simp_all add: at_hour_def)
  show ?thesis
    using h determine_mode_bands [of "test_app\<lparr>clock := \<lambda>k. at_hour 5\<rparr>"]
      determine_mode_bands [of "test_app\<lparr>clock := \<lambda>k. at_hour 7\<rparr>"]
      determine_mode_bands [of "test_app\<lparr>clock := \<lambda>k. at_hour 13\<rparr>"]
      determine_mode_bands [of "test_app\<lparr>clock := \<lambda>k. at_hour 20\<rparr>"]
    by simp
qed

text \<open>
  C2 asks that at every instant at which \<^verbatim>\<open>determine_mode\<close> is evaluated the next
  transition is the start of the next 6-hour band. \<^verbatim>\<open>determine_mode\<close> reads the clock a
  second time for the datetime whose fields it replaces. When the two readings fall on the
  same date the result is that band start (\<open>determine_mode_same_date\<close>, above). When
  midnight passes between them, here 23:59:59.999999 and then 00:00:00.000001 of the next
  day, the band is chosen from the first reading (normal, sleep) and the day is added to
  the date of the second: the result is midnight two days after the first reading's date,
  24 hours after the band start that follows the first reading and 18 hours after the one
  that follows the second.
\<close>

theorem next_transition_midnight_between_readings:
  "profile_of (determine_mode midnight_between_readings_app) = ''normal''
   \<and> curtail_mode_of (determine_mode midnight_between_readings_app) = ''sleep''
   \<and> next_transition_of (determine_mode midnight_between_readings_app)
       = \<lparr>ordinal = 738888, hour = 0, minute = 0, second = 0, microsecond = 0\<rparr>
   \<and> next_band_start (clock midnight_between_readings_app 0)
       = timestamp \<lparr>ordinal = 738887, hour = 0, minute = 0, second = 0, microsecond = 0\<rparr>
   \<and> next_band_start (clock midnight_between_readings_app 1)
       = timestamp \<lparr>ordinal = 738887, hour = 6, minute = 0, second = 0, microsecond = 0\<rparr>
   \<and> timestamp (next_transition_of (determine_mode midnight_between_readings_app))
       \<noteq> next_band_start (clock midnight_between_readings_app 0)
   \<and> timestamp (next_transition_of (determine_mode midnight_between_readings_app))
       \<noteq> next_band_start (clock midnight_between_readings_app 1)"
  by (simp add: determine_mode_def now_utc_def profile_of_def curtail_mode_of_def
        next_transition_of_def next_band_start_def timestamp_def
        midnight_between_readings_app_def test_app_def)

section \<open>Properties of the request executor\<close>

lemma failed_attempts_0 [simp]: "failed_attempts url data a 0 = []"
  by (simp add: failed_attempts_def)

lemma failed_attempts_Suc:
  "failed_attempts url data a (Suc n) = Post url data # Sleep (2 ^ a) # failed_attempts url data (Suc a) n"
  by (simp add: failed_attempts_def upt_conv_Cons del: upt_Suc)

lemma attempts_step_retry:
  assumes "retriable rl ig (net s (posts s) url data)"
  shows "attempts (Suc n) a url data rl ig s
       = attempts n (Suc a) url data rl ig
           (s\<lparr>posts := Suc (posts s), trace := trace s @ [Post url data, Sleep (2 ^ a)]\<rparr>)"
  using assms
  by (cases "net s (posts s) url data")
     (auto simp: requests_post_def time_sleep_def emit_def split: body.splits)

lemma attempts_all_retriable:
  assumes "\<forall>k<n. retriable rl ig (net s (posts s + k) url data)"
  shows "attempts n a url data rl ig s
       = (Ret_none, s\<lparr>posts := posts s + n, trace := trace s @ failed_attempts url data a n\<rparr>)"
  using assms
proof (induction n arbitrary: a s)
  case 0
  then show ?case by simp
next
  case (Suc n)
  let ?s = "s\<lparr>posts := Suc (posts s), trace := trace s @ [Post url data, Sleep (2 ^ a)]\<rparr>"
  from Suc.prems have "retriable rl ig (net s (posts s) url data)"
    by (metis add.right_neutral zero_less_Suc)
  then have step: "attempts (Suc n) a url data rl ig s = attempts n (Suc a) url data rl ig ?s"
    by (rule attempts_step_retry)
  have "\<forall>k<n. retriable rl ig (net ?s (posts ?s + k) url data)"
    using Suc.prems by (auto dest: spec [where x = "Suc k" for k])
  then have "attempts n (Suc a) url data rl ig ?s
      = (Ret_none, ?s\<lparr>posts := posts ?s + n, trace := trace ?s @ failed_attempts url data (Suc a) n\<rparr>)"
    by (rule Suc.IH)
  then show ?case unfolding step by (simp add: failed_attempts_Suc)
qed

lemma attempts_first_200:
  assumes "net s (posts s) url data = Responded r" "status_code r = 200"
  shows "attempts (Suc n) a url data rl ig s
       = (Ret_response r, s\<lparr>posts := Suc (posts s), trace := trace s @ [Post url data]\<rparr>)"
  using assms by (simp add: requests_post_def emit_def)

lemma attempts_first_ignored:
  assumes "net s (posts s) url data = Responded r" "status_code r \<noteq> 200"
    "content r = Json j" "list_ex (\<lambda>error. str_in error (get_message j)) ig"
  shows "attempts (Suc n) a url data rl ig s
       = (Ret_response (ignored r), s\<lparr>posts := Suc (posts s), trace := trace s @ [Post url data]\<rparr>)"
  using assms by (simp add: requests_post_def emit_def)

lemma attempts_step_return:
  assumes "\<not> retriable rl ig (net s (posts s) url data)"
  shows "snd (attempts (Suc n) a url data rl ig s)
       = s\<lparr>posts := Suc (posts s), trace := trace s @ [Post url data]\<rparr>"
  using assms
  by (cases "net s (posts s) url data")
     (auto simp: requests_post_def emit_def split: body.splits)

lemma attempts_shape:
  "\<exists>k es. snd (attempts n a url data rl ig s) = s\<lparr>posts := posts s + k, trace := trace s @ es\<rparr>
     \<and> filter is_call es = []"
proof (induction n arbitrary: a s)
  case 0
  have "snd (attempts 0 a url data rl ig s) = s\<lparr>posts := posts s + 0, trace := trace s @ []\<rparr>"
    by simp
  then show ?case by (metis filter.simps(1))
next
  case (Suc n)
  show ?case
  proof (cases "retriable rl ig (net s (posts s) url data)")
    case True
    let ?s = "s\<lparr>posts := Suc (posts s), trace := trace s @ [Post url data, Sleep (2 ^ a)]\<rparr>"
    obtain k es where k: "snd (attempts n (Suc a) url data rl ig ?s)
        = ?s\<lparr>posts := posts ?s + k, trace := trace ?s @ es\<rparr>" and es: "filter is_call es = []"
      using Suc.IH by blast
    have "snd (attempts (Suc n) a url data rl ig s)
        = s\<lparr>posts := posts s + Suc k, trace := trace s @ ([Post url data, Sleep (2 ^ a)] @ es)\<rparr>"
      unfolding attempts_step_retry [OF True] k by simp
    moreover have "filter is_call ([Post url data, Sleep (2 ^ a)] @ es) = []"
      using es by simp
    ultimately show ?thesis by blast
  next
    case False
    have "snd (attempts (Suc n) a url data rl ig s)
        = s\<lparr>posts := posts s + 1, trace := trace s @ [Post url data]\<rparr>"
      unfolding attempts_step_return [OF False] by simp
    moreover have "filter is_call [Post url data] = []" by simp
    ultimately show ?thesis by blast
  qed
qed

lemma make_request_shape:
  "\<exists>k es. snd (make_request url data retries rl ig s) = s\<lparr>posts := posts s + k, trace := trace s @ es\<rparr>
     \<and> filter is_call es = []"
  unfolding make_request_def by (rule attempts_shape)

lemma make_request_frame:
  "miner_tokens (snd (make_request url data retries rl ig s)) = miner_tokens s"
  "base_url (snd (make_request url data retries rl ig s)) = base_url s"
  "max_retries (snd (make_request url data retries rl ig s)) = max_retries s"
  "miner_ips (snd (make_request url data retries rl ig s)) = miner_ips s"
  "net (snd (make_request url data retries rl ig s)) = net s"
  "clock (snd (make_request url data retries rl ig s)) = clock s"
  "reads (snd (make_request url data retries rl ig s)) = reads s"
  "calls (snd (make_request url data retries rl ig s)) = calls s"
proof -
  obtain k es where k: "snd (make_request url data retries rl ig s)
      = s\<lparr>posts := posts s + k, trace := trace s @ es\<rparr>" and es: "filter is_call es = []"
    using make_request_shape by blast
  show "miner_tokens (snd (make_request url data retries rl ig s)) = miner_tokens s"
    "base_url (snd (make_request url data retries rl ig s)) = base_url s"
    "max_retries (snd (make_request url data retries rl ig s)) = max_retries s"
    "miner_ips (snd (make_request url data retries rl ig s)) = miner_ips s"
    "net (snd (make_request url data retries rl ig s)) = net s"
    "clock (snd (make_request url data retries rl ig s)) = clock s"
    "reads (snd (make_request url data retries rl ig s)) = reads s"
    "calls (snd (make_request url data retries rl ig s)) = calls s"
    unfolding k using es by (simp_all add: calls_def)
qed

lemma attempts_plain_result:
  "fst (attempts n a url data False [] s) = Ret_none
   \<or> (\<exists>r. fst (attempts n a url data False [] s) = Ret_response r \<and> status_code r = 200)"
  by (induction n a url data False "[] :: string list" s rule: attempts.induct)
     (auto simp: requests_post_def split: post_result.splits body.splits)

lemma make_request_plain_result:
  "fst (make_request url data retries False [] s) = Ret_none
   \<or> (\<exists>r. fst (make_request url data retries False [] s) = Ret_response r \<and> status_code r = 200)"
  unfolding make_request_def by (rule attempts_plain_result)

section \<open>Properties of the session manager\<close>

lemma emit_simps [simp]:
  "miner_tokens (emit e s) = miner_tokens s"
  "base_url (emit e s) = base_url s"
  "max_retries (emit e s) = max_retries s"
  "miner_ips (emit e s) = miner_ips s"
  "net (emit e s) = net s"
  "clock (emit e s) = clock s"
  "reads (emit e s) = reads s"
  "posts (emit e s) = posts s"
  "trace (emit e s) = trace s @ [e]"
  by (simp_all add: emit_def)

lemma calls_emit [simp]: "calls (emit e s) = (if is_call e then calls s @ [e] else calls s)"
  by (simp add: calls_def)

lemma calls_miner_tokens_update [simp]: "calls (s\<lparr>miner_tokens := m\<rparr>) = calls s"
  by (simp add: calls_def)

lemma login_request_frame:
  "miner_tokens (snd (login_request ip s)) = miner_tokens s"
  "base_url (snd (login_request ip s)) = base_url s"
  "max_retries (snd (login_request ip s)) = max_retries s"
  "miner_ips (snd (login_request ip s)) = miner_ips s"
  "net (snd (login_request ip s)) = net s"
  "clock (snd (login_request ip s)) = clock s"
  "reads (snd (login_request ip s)) = reads s"
  "calls (snd (login_request ip s)) = calls s @ [Call_login ip]"
  by (simp_all add: login_request_def make_request_frame)

lemma login_request_result:
  "fst (login_request ip s) = Ret_none
   \<or> (\<exists>r. fst (login_request ip s) = Ret_response r \<and> status_code r = 200)"
  unfolding login_request_def by (rule make_request_plain_result)

lemma login_unfold:
  "login ip s =
     (case fst (login_request ip s) of
        Ret_none \<Rightarrow> (Inr None, emit (Report (Login_failed ip)) (snd (login_request ip s)))
      | Ret_unauthorized \<Rightarrow> (Inl AttributeError, snd (login_request ip s))
      | Ret_response r \<Rightarrow>
          (case content r of
             Raw _ \<Rightarrow> (Inl JSONDecodeError, snd (login_request ip s))
           | Json token_data \<Rightarrow>
               if nonempty (token_data ''token'') then
                 (Inr (token_data ''token''),
                  emit (Report (Logged_in ip))
                    ((snd (login_request ip s))\<lparr>miner_tokens := (miner_tokens s)
                        (ip \<mapsto> \<lparr>token = the (token_data ''token''), ttl = token_data ''ttl''\<rparr>)\<rparr>))
               else (Inr None, emit (Report (Login_no_token ip)) (snd (login_request ip s)))))"
proof -
  obtain x s1 where mr: "login_request ip s = (x, s1)" by (cases "login_request ip s")
  have mt: "miner_tokens s1 = miner_tokens s" using login_request_frame(1) [of ip s] mr by simp
  have res: "x = Ret_none \<or> (\<exists>r. x = Ret_response r \<and> status_code r = 200)"
    using login_request_result [of ip s] mr by simp
  have "login ip s = (case x of
        Ret_none \<Rightarrow> (Inr None, emit (Report (Login_failed ip)) s1)
      | Ret_unauthorized \<Rightarrow> (Inl AttributeError, s1)
      | Ret_response r \<Rightarrow>
          if ok r then
          (case content r of
             Raw _ \<Rightarrow> (Inl JSONDecodeError, s1)
           | Json token_data \<Rightarrow>
               if nonempty (token_data ''token'') then
                 (Inr (token_data ''token''),
                  emit (Report (Logged_in ip))
                    (s1\<lparr>miner_tokens := (miner_tokens s1)
                        (ip \<mapsto> \<lparr>token = the (token_data ''token''), ttl = token_data ''ttl''\<rparr>)\<rparr>))
               else (Inr None, emit (Report (Login_no_token ip)) s1))
          else (Inr None, emit (Report (Login_failed ip)) s1))"
    using mr unfolding login_def login_request_def Let_def
    by (simp split: ret.splits)
  then show ?thesis using res unfolding mr mt
    by (auto simp: ok_def split: ret.splits body.splits)
qed


lemma login_frame:
  "base_url (snd (login ip s)) = base_url s"
  "max_retries (snd (login ip s)) = max_retries s"
  "miner_ips (snd (login ip s)) = miner_ips s"
  "net (snd (login ip s)) = net s"
  "clock (snd (login ip s)) = clock s"
  "reads (snd (login ip s)) = reads s"
  unfolding login_unfold
  by (simp_all add: login_request_frame split: ret.splits body.splits)

lemma logout_request_frame:
  "miner_tokens (snd (logout_request ip s)) = miner_tokens s"
  "calls (snd (logout_request ip s)) = calls s @ [Call_logout ip]"
  by (simp_all add: logout_request_def make_request_frame)

lemma logout_request_result:
  "fst (logout_request ip s) = Ret_none
   \<or> (\<exists>r. fst (logout_request ip s) = Ret_response r \<and> status_code r = 200)"
  unfolding logout_request_def by (rule make_request_plain_result)

lemma logout_unfold:
  "logout ip s =
     (case fst (logout_request ip s) of
        Ret_none \<Rightarrow> (Inr (), emit (Report (Logout_failed ip)) (snd (logout_request ip s)))
      | _ \<Rightarrow> (Inr (), emit (Report (Logged_out ip))
                 ((snd (logout_request ip s))\<lparr>miner_tokens := (miner_tokens s)(ip := None)\<rparr>)))"
proof -
  obtain x s1 where mr: "logout_request ip s = (x, s1)" by (cases "logout_request ip s")
  have mt: "miner_tokens s1 = miner_tokens s" using logout_request_frame(1) [of ip s] mr by simp
  have res: "x = Ret_none \<or> (\<exists>r. x = Ret_response r \<and> status_code r = 200)"
    using logout_request_result [of ip s] mr by simp
  have del: "(case miner_tokens s1 ip of None \<Rightarrow> miner_tokens s1
              | Some _ \<Rightarrow> (miner_tokens s1)(ip := None)) = (miner_tokens s)(ip := None)"
    unfolding mt by (auto split: option.splits)
  have "logout ip s =
      (if truthy x then (Inr (), emit (Report (Logged_out ip))
                 (s1\<lparr>miner_tokens := (miner_tokens s)(ip := None)\<rparr>))
       else (Inr (), emit (Report (Logout_failed ip)) s1))"
    using mr unfolding logout_def logout_request_def Let_def by (simp add: del)
  then show ?thesis using res unfolding mr
    by (auto simp: ok_def split: ret.splits)
qed


lemma logout_returns: "fst (logout ip s) = Inr ()"
  unfolding logout_unfold by (simp split: ret.splits)

section \<open>Retry, backoff and error classification\<close>

lemma make_request_first_200:
  assumes "net s (posts s) url data = Responded r" "status_code r = 200" "0 < retries"
  shows "make_request url data retries rl ig s
       = (Ret_response r, s\<lparr>posts := Suc (posts s), trace := trace s @ [Post url data]\<rparr>)"
proof -
  obtain n where n: "nat retries = Suc n" using assms(3) by (cases "nat retries") auto
  show ?thesis unfolding make_request_def n using assms(1,2) by (rule attempts_first_200)
qed

lemma make_request_first_ignored:
  assumes "net s (posts s) url data = Responded r" "status_code r \<noteq> 200"
    "content r = Json j" "list_ex (\<lambda>error. str_in error (get_message j)) ig" "0 < retries"
  shows "make_request url data retries rl ig s
       = (Ret_response (ignored r), s\<lparr>posts := Suc (posts s), trace := trace s @ [Post url data]\<rparr>)"
proof -
  obtain n where n: "nat retries = Suc n" using assms(5) by (cases "nat retries") auto
  show ?thesis unfolding make_request_def n using assms(1-4) by (rule attempts_first_ignored)
qed

lemma make_request_all_retriable:
  assumes "\<forall>k<nat retries. retriable rl ig (net s (posts s + k) url data)"
  shows "make_request url data retries rl ig s
       = (Ret_none, s\<lparr>posts := posts s + nat retries,
                       trace := trace s @ failed_attempts url data 0 (nat retries)\<rparr>)"
  unfolding make_request_def using assms by (rule attempts_all_retriable)

lemma make_request_raised_then_200:
  assumes "net s (posts s) url data = Raised" "net s (Suc (posts s)) url data = Responded r"
    "status_code r = 200" "2 \<le> retries"
  shows "make_request url data retries rl ig s
       = (Ret_response r, s\<lparr>posts := posts s + 2,
                             trace := trace s @ [Post url data, Sleep (2 ^ 0), Post url data]\<rparr>)"
proof -
  obtain n where n: "nat retries = Suc (Suc n)" using assms(4)
    by (cases "nat retries"; simp) (rename_tac m, case_tac m; simp)
  let ?s = "s\<lparr>posts := Suc (posts s), trace := trace s @ [Post url data, Sleep (2 ^ 0)]\<rparr>"
  have r: "retriable rl ig (net s (posts s) url data)" using assms(1) by simp
  have "attempts (Suc n) (Suc 0) url data rl ig ?s
      = (Ret_response r, ?s\<lparr>posts := Suc (posts ?s), trace := trace ?s @ [Post url data]\<rparr>)"
    by (rule attempts_first_200) (simp_all add: assms)
  then show ?thesis unfolding make_request_def n attempts_step_retry [OF r] by simp
qed

lemmas run_defs = make_request_def eval_nat_numeral requests_post_def time_sleep_def emit_def
  test_app_def replies_def resp_def get_message_def

text \<open>
  C5, as the code has it. When every one of the \<open>retries\<close> attempts fails at the transport
  level or with a retriable non-200 response, the \<open>i\<close>-th failed attempt (from 0) is followed
  by a sleep of exactly \<open>2 ^ i\<close> seconds, also after the last attempt, and the call then
  returns \<^verbatim>\<open>None\<close>: its events are \<open>failed_attempts url data 0 retries\<close>. A transport
  error on attempt 0 followed by a 200 on attempt 1 sleeps \<open>2 ^ 0\<close> once and returns that
  response.
\<close>

theorem make_request_backoff:
  "((\<forall>k<nat retries. retriable re_login_on_unauthorized ignore_errors (net s (posts s + k) url data))
     \<longrightarrow> make_request url data retries re_login_on_unauthorized ignore_errors s
         = (Ret_none, s\<lparr>posts := posts s + nat retries,
                         trace := trace s @ failed_attempts url data 0 (nat retries)\<rparr>))
   \<and> (net s (posts s) url data = Raised \<and> net s (Suc (posts s)) url data = Responded r
        \<and> status_code r = 200 \<and> 2 \<le> retries
     \<longrightarrow> make_request url data retries re_login_on_unauthorized ignore_errors s
         = (Ret_response r, s\<lparr>posts := posts s + 2,
                               trace := trace s @ [Post url data, Sleep (2 ^ 0), Post url data]\<rparr>))"
  using make_request_all_retriable make_request_raised_then_200 by blast

theorem make_request_backoff_witness:
  "make_request ''/curtail'' [] 2 True [''Miner is already in'']
      (test_app\<lparr>net := replies [resp 500 [(''message'', ''Internal Server Error'')], Raised]\<rparr>)
     = (Ret_none,
        test_app\<lparr>net := replies [resp 500 [(''message'', ''Internal Server Error'')], Raised],
          posts := 2,
          trace := [Post ''/curtail'' [], Sleep 1, Post ''/curtail'' [], Sleep 2]\<rparr>)
   \<and> make_request ''/login'' [(''miner_ip'', ''192.168.0.1'')] 3 False []
      (test_app\<lparr>net := replies [Raised, resp 200 []]\<rparr>)
     = (Ret_response \<lparr>status_code = 200, content = Json (map_of [])\<rparr>,
        test_app\<lparr>net := replies [Raised, resp 200 []], posts := 2,
          trace := [Post ''/login'' [(''miner_ip'', ''192.168.0.1'')], Sleep 1,
                    Post ''/login'' [(''miner_ip'', ''192.168.0.1'')]]\<rparr>)"
proof -
  let ?s = "test_app\<lparr>net := replies [resp 500 [(''message'', ''Internal Server Error'')], Raised]\<rparr>"
  let ?t = "test_app\<lparr>net := replies [Raised, resp 200 []]\<rparr>"
  have a: "\<forall>k<nat 2. retriable True [''Miner is already in''] (net ?s (posts ?s + k) ''/curtail'' [])"
  proof (intro allI impI)
    fix k :: nat assume "k < nat 2"
    then have "k = 0 \<or> k = 1" by auto
    then show "retriable True [''Miner is already in''] (net ?s (posts ?s + k) ''/curtail'' [])"
      by (auto simp: test_app_def replies_def resp_def get_message_def)
  qed
  have b: "net ?t (posts ?t) ''/login'' [(''miner_ip'', ''192.168.0.1'')] = Raised
      \<and> net ?t (Suc (posts ?t)) ''/login'' [(''miner_ip'', ''192.168.0.1'')]
          = Responded \<lparr>status_code = 200, content = Json (map_of [])\<rparr>
      \<and> status_code \<lparr>status_code = 200, content = Json (map_of [])\<rparr> = 200 \<and> (2::int) \<le> 3"
    by (simp add: test_app_def replies_def resp_def)
  have f: "failed_attempts ''/curtail'' [] 0 (nat 2) = [Post ''/curtail'' [], Sleep 1, Post ''/curtail'' [], Sleep 2]"
    by (simp add: failed_attempts_def eval_nat_numeral)
  have p: "posts ?s + nat 2 = 2" "trace ?s = []" "posts ?t + 2 = 2" "trace ?t = []"
    by (simp_all add: test_app_def)
  show ?thesis
    using make_request_backoff [of 2 True "[''Miner is already in'']" ?s "''/curtail''" "[]"]
      make_request_backoff [of 3 False "[]" ?t "''/login''" "[(''miner_ip'', ''192.168.0.1'')]"
        "\<lparr>status_code = 200, content = Json (map_of [])\<rparr>"] a b
    unfolding f p by simp
qed

text \<open>
  C5 as stated asks for no sleep when there is no next attempt. With three attempts that
  all raise, the call sleeps four seconds after the third and last attempt before it
  returns \<^verbatim>\<open>None\<close>.
\<close>

theorem sleep_after_last_attempt:
  "make_request ''/login'' [(''miner_ip'', ''192.168.0.1'')] 3 False [] test_app
     = (Ret_none,
        test_app\<lparr>posts := 3,
          trace := [Post ''/login'' [(''miner_ip'', ''192.168.0.1'')], Sleep 1,
                    Post ''/login'' [(''miner_ip'', ''192.168.0.1'')], Sleep 2,
                    Post ''/login'' [(''miner_ip'', ''192.168.0.1'')], Sleep 4]\<rparr>)"
  by (simp add: make_request_def eval_nat_numeral requests_post_def time_sleep_def emit_def test_app_def)

section \<open>The setters and the ignored outcome\<close>

lemma set_profile_unfold:
  "set_profile depth ip tok profile s =
     (case fst (profile_request ip tok profile s) of
        Ret_unauthorized \<Rightarrow>
          (case login ip (emit (Report (Unauthorized_token ip)) (snd (profile_request ip tok profile s))) of
             (Inl e, s2) \<Rightarrow> (Inl e, s2)
           | (Inr new_token, s2) \<Rightarrow>
               if nonempty new_token then
                 (case depth of
                    0 \<Rightarrow> (Inl RecursionError, s2)
                  | Suc d \<Rightarrow> set_profile d ip (the new_token) profile s2)
               else (Inr (), s2))
      | Ret_none \<Rightarrow> (Inr (), emit (Report (Profile_failed ip)) (snd (profile_request ip tok profile s)))
      | Ret_response r \<Rightarrow>
          if ok r then (Inr (), emit (Report (Profile_set ip profile)) (snd (profile_request ip tok profile s)))
          else (Inr (), emit (Report (Profile_failed ip)) (snd (profile_request ip tok profile s))))"
proof -
  obtain x s1 where mr: "profile_request ip tok profile s = (x, s1)"
    by (cases "profile_request ip tok profile s")
  then have mr': "make_request (base_url s @ ''/profileset'') [(''token'', tok), (''profile'', profile)]
      (max_retries s) True [''Miner is already in''] (emit (Call_set_profile ip tok profile) s) = (x, s1)"
    by (simp add: profile_request_def)
  show ?thesis unfolding mr
    by (subst set_profile.simps) (simp add: Let_def mr' split: ret.splits)
qed

lemma set_curtail_unfold:
  "set_curtail depth ip tok mode s =
     (case fst (curtail_request ip tok mode s) of
        Ret_unauthorized \<Rightarrow>
          (case login ip (emit (Report (Unauthorized_token ip)) (snd (curtail_request ip tok mode s))) of
             (Inl e, s2) \<Rightarrow> (Inl e, s2)
           | (Inr new_token, s2) \<Rightarrow>
               if nonempty new_token then
                 (case depth of
                    0 \<Rightarrow> (Inl RecursionError, s2)
                  | Suc d \<Rightarrow> set_curtail d ip (the new_token) mode s2)
               else (Inr (), s2))
      | Ret_none \<Rightarrow> (Inr (), emit (Report (Curtail_failed ip)) (snd (curtail_request ip tok mode s)))
      | Ret_response r \<Rightarrow>
          if ok r then (Inr (), emit (Report (Curtail_set ip mode)) (snd (curtail_request ip tok mode s)))
          else (Inr (), emit (Report (Curtail_failed ip)) (snd (curtail_request ip tok mode s))))"
proof -
  obtain x s1 where mr: "curtail_request ip tok mode s = (x, s1)"
    by (cases "curtail_request ip tok mode s")
  then have mr': "make_request (base_url s @ ''/curtail'') [(''token'', tok), (''mode'', mode)]
      (max_retries s) True [''Miner is already in''] (emit (Call_set_curtail ip tok mode) s) = (x, s1)"
    by (simp add: curtail_request_def)
  show ?thesis unfolding mr
    by (subst set_curtail.simps) (simp add: Let_def mr' split: ret.splits)
qed

lemma ok_ignored: "ok (ignored r)"
  by (simp add: ok_def ignored_def)

lemma setter_request_frame:
  "calls (snd (profile_request ip tok profile s)) = calls s @ [Call_set_profile ip tok profile]"
  "calls (snd (curtail_request ip tok mode s)) = calls s @ [Call_set_curtail ip tok mode]"
  "miner_tokens (snd (profile_request ip tok profile s)) = miner_tokens s"
  "miner_tokens (snd (curtail_request ip tok mode s)) = miner_tokens s"
  by (simp_all add: profile_request_def curtail_request_def make_request_frame)

text \<open>
  C6. When the first response of \<^verbatim>\<open>make_request\<close> is not a 200 and its message contains
  one of the strings to ignore, the call returns the ignored outcome after that one post,
  without a sleep or a further attempt, and the outcome is truthy: a setter whose request
  returns it reports success and not failure.
\<close>

theorem ignorable_error_first_attempt:
  "(net s (posts s) url data = Responded r \<and> status_code r \<noteq> 200 \<and> content r = Json response_json
      \<and> list_ex (\<lambda>error. str_in error (get_message response_json)) ignore_errors \<and> 0 < retries
     \<longrightarrow> make_request url data retries re_login_on_unauthorized ignore_errors s
           = (Ret_response (ignored r), s\<lparr>posts := Suc (posts s), trace := trace s @ [Post url data]\<rparr>)
       \<and> truthy (Ret_response (ignored r)))
   \<and> (fst (profile_request miner_ip tok profile s) = Ret_response (ignored r)
     \<longrightarrow> set_profile depth miner_ip tok profile s
           = (Inr (), emit (Report (Profile_set miner_ip profile)) (snd (profile_request miner_ip tok profile s))))
   \<and> (fst (curtail_request miner_ip tok mode s) = Ret_response (ignored r)
     \<longrightarrow> set_curtail depth miner_ip tok mode s
           = (Inr (), emit (Report (Curtail_set miner_ip mode)) (snd (curtail_request miner_ip tok mode s))))"
proof (intro conjI impI)
  assume a: "net s (posts s) url data = Responded r \<and> status_code r \<noteq> 200 \<and> content r = Json response_json
      \<and> list_ex (\<lambda>error. str_in error (get_message response_json)) ignore_errors \<and> 0 < retries"
  then have h: "net s (posts s) url data = Responded r" "status_code r \<noteq> 200"
    "content r = Json response_json"
    "list_ex (\<lambda>error. str_in error (get_message response_json)) ignore_errors" "0 < retries"
    by blast+
  show "make_request url data retries re_login_on_unauthorized ignore_errors s
      = (Ret_response (ignored r), s\<lparr>posts := Suc (posts s), trace := trace s @ [Post url data]\<rparr>)"
    using h by (rule make_request_first_ignored)
  show "truthy (Ret_response (ignored r))" by (simp add: ok_ignored)
next
  assume "fst (profile_request miner_ip tok profile s) = Ret_response (ignored r)"
  then show "set_profile depth miner_ip tok profile s
      = (Inr (), emit (Report (Profile_set miner_ip profile)) (snd (profile_request miner_ip tok profile s)))"
    by (subst set_profile_unfold) (simp add: ok_ignored)
next
  assume "fst (curtail_request miner_ip tok mode s) = Ret_response (ignored r)"
  then show "set_curtail depth miner_ip tok mode s
      = (Inr (), emit (Report (Curtail_set miner_ip mode)) (snd (curtail_request miner_ip tok mode s)))"
    by (subst set_curtail_unfold) (simp add: ok_ignored)
qed

theorem ignorable_error_first_attempt_witness:
  "set_profile 0 ''192.168.0.1'' ''test_token'' ''normal'' already_set_app
     = (Inr (), already_set_app\<lparr>posts := 1,
          trace := [Call_set_profile ''192.168.0.1'' ''test_token'' ''normal'',
                    Post ''http://127.0.0.1:5000/api/profileset''
                      [(''token'', ''test_token''), (''profile'', ''normal'')],
                    Report (Profile_set ''192.168.0.1'' ''normal'')]\<rparr>)
   \<and> set_curtail 0 ''192.168.0.1'' ''test_token'' ''active'' already_set_app
     = (Inr (), already_set_app\<lparr>posts := 1,
          trace := [Call_set_curtail ''192.168.0.1'' ''test_token'' ''active'',
                    Post ''http://127.0.0.1:5000/api/curtail''
                      [(''token'', ''test_token''), (''mode'', ''active'')],
                    Report (Curtail_set ''192.168.0.1'' ''active'')]\<rparr>)"
proof -
  let ?s = already_set_app
  let ?j = "map_of [(''message'', ''Miner is already in normal profile.'')]"
  let ?r = "\<lparr>status_code = 400, content = Json ?j\<rparr>"
  let ?p = "emit (Call_set_profile ''192.168.0.1'' ''test_token'' ''normal'') ?s"
  let ?c = "emit (Call_set_curtail ''192.168.0.1'' ''test_token'' ''active'') ?s"
  let ?pd = "[(''token'', ''test_token''), (''profile'', ''normal'')]"
  let ?cd = "[(''token'', ''test_token''), (''mode'', ''active'')]"
  have hp: "net ?p (posts ?p) (base_url ?s @ ''/profileset'') ?pd = Responded ?r \<and> status_code ?r \<noteq> 200
      \<and> content ?r = Json ?j \<and> list_ex (\<lambda>error. str_in error (get_message ?j)) [''Miner is already in'']
      \<and> 0 < max_retries ?s"
    by (simp add: already_set_app_def run_defs)
  have hc: "net ?c (posts ?c) (base_url ?s @ ''/curtail'') ?cd = Responded ?r \<and> status_code ?r \<noteq> 200
      \<and> content ?r = Json ?j \<and> list_ex (\<lambda>error. str_in error (get_message ?j)) [''Miner is already in'']
      \<and> 0 < max_retries ?s"
    by (simp add: already_set_app_def run_defs)
  have mp: "profile_request ''192.168.0.1'' ''test_token'' ''normal'' ?s
      = (Ret_response (ignored ?r), ?p\<lparr>posts := Suc (posts ?p),
           trace := trace ?p @ [Post (base_url ?s @ ''/profileset'') ?pd]\<rparr>)"
    unfolding profile_request_def
    using hp ignorable_error_first_attempt [where s = ?p and r = ?r and response_json = ?j
        and url = "base_url ?s @ ''/profileset''" and data = ?pd
        and ignore_errors = "[''Miner is already in'']" and retries = "max_retries ?s"
        and re_login_on_unauthorized = True]
    by blast
  have mc: "curtail_request ''192.168.0.1'' ''test_token'' ''active'' ?s
      = (Ret_response (ignored ?r), ?c\<lparr>posts := Suc (posts ?c),
           trace := trace ?c @ [Post (base_url ?s @ ''/curtail'') ?cd]\<rparr>)"
    unfolding curtail_request_def
    using hc ignorable_error_first_attempt [where s = ?c and r = ?r and response_json = ?j
        and url = "base_url ?s @ ''/curtail''" and data = ?cd
        and ignore_errors = "[''Miner is already in'']" and retries = "max_retries ?s"
        and re_login_on_unauthorized = True]
    by blast
  have sp: "set_profile 0 ''192.168.0.1'' ''test_token'' ''normal'' ?s
      = (Inr (), emit (Report (Profile_set ''192.168.0.1'' ''normal''))
                   (snd (profile_request ''192.168.0.1'' ''test_token'' ''normal'' ?s)))"
    using mp ignorable_error_first_attempt [where s = ?s and r = ?r and miner_ip = "''192.168.0.1''"
        and tok = "''test_token''" and profile = "''normal''" and depth = 0]
    by simp
  have sc: "set_curtail 0 ''192.168.0.1'' ''test_token'' ''active'' ?s
      = (Inr (), emit (Report (Curtail_set ''192.168.0.1'' ''active''))
                   (snd (curtail_request ''192.168.0.1'' ''test_token'' ''active'' ?s)))"
    using mc ignorable_error_first_attempt [where s = ?s and r = ?r and miner_ip = "''192.168.0.1''"
        and tok = "''test_token''" and mode = "''active''" and depth = 0]
    by simp
  show ?thesis unfolding sp sc mp mc
    by (simp add: already_set_app_def emit_def test_app_def)
qed

text \<open>A call whose first \<open>k\<close> attempts are retriable goes on with attempt \<open>k\<close>.\<close>

lemma failed_attempts_snoc:
  "failed_attempts url data a (Suc k)
     = failed_attempts url data a k @ [Post url data, Sleep (2 ^ (a + k))]"
  by (simp add: failed_attempts_def)

lemma attempts_after_retriable:
  assumes "\<forall>j<k. retriable rl ig (net s (posts s + j) url data)"
  shows "attempts (k + n) a url data rl ig s
       = attempts n (a + k) url data rl ig
           (s\<lparr>posts := posts s + k, trace := trace s @ failed_attempts url data a k\<rparr>)"
  using assms
proof (induction k arbitrary: a s)
  case 0
  then show ?case by simp
next
  case (Suc k)
  let ?s = "s\<lparr>posts := Suc (posts s), trace := trace s @ [Post url data, Sleep (2 ^ a)]\<rparr>"
  from Suc.prems have r: "retriable rl ig (net s (posts s) url data)"
    by (metis add.right_neutral zero_less_Suc)
  have "\<forall>j<k. retriable rl ig (net ?s (posts ?s + j) url data)"
    using Suc.prems by (auto dest: spec [where x = "Suc j" for j])
  then have "attempts (k + n) (Suc a) url data rl ig ?s
      = attempts n (Suc a + k) url data rl ig
          (?s\<lparr>posts := posts ?s + k, trace := trace ?s @ failed_attempts url data (Suc a) k\<rparr>)"
    by (rule Suc.IH)
  moreover have "attempts (Suc k + n) a url data rl ig s = attempts (k + n) (Suc a) url data rl ig ?s"
    using attempts_step_retry [OF r, of "k + n" a] by simp
  ultimately show ?case by (simp add: failed_attempts_Suc)
qed

lemma make_request_ignored_at:
  assumes k: "k < nat retries"
    and f: "\<forall>j<k. retriable rl ig (net s (posts s + j) url data)"
    and r: "net s (posts s + k) url data = Responded r" "status_code r \<noteq> 200"
      "content r = Json j" "list_ex (\<lambda>error. str_in error (get_message j)) ig"
  shows "make_request url data retries rl ig s
       = (Ret_response (ignored r),
          s\<lparr>posts := Suc (posts s + k),
            trace := trace s @ failed_attempts url data 0 k @ [Post url data]\<rparr>)"
proof -
  obtain n where n: "nat retries = k + Suc n"
    using k by (metis add_Suc_right less_iff_Suc_add)
  let ?s = "s\<lparr>posts := posts s + k, trace := trace s @ failed_attempts url data 0 k\<rparr>"
  have "attempts (Suc n) (0 + k) url data rl ig ?s
      = (Ret_response (ignored r), ?s\<lparr>posts := Suc (posts ?s), trace := trace ?s @ [Post url data]\<rparr>)"
    by (rule attempts_first_ignored [where j = j]) (simp_all add: r)
  then show ?thesis
    unfolding make_request_def n attempts_after_retriable [OF f] by simp
qed

text \<open>
  C10. With \<^verbatim>\<open>re_login_on_unauthorized\<close> set, whenever a response of the call (the one of
  attempt \<open>k\<close>, every attempt before it having failed retriably) has status 401 and a
  message that contains one of the strings to ignore, the call returns the ignored outcome
  and not \<^verbatim>\<open>'unauthorized'\<close>, after that post and without a sleep behind it. The outcome is
  truthy: a setter whose request returns it reports success and makes no call of
  \<^verbatim>\<open>login\<close>.
\<close>

theorem ignorable_precedes_unauthorized:
  "(k < nat retries
      \<and> (\<forall>j<k. retriable True ignore_errors (net s (posts s + j) url data))
      \<and> net s (posts s + k) url data = Responded r \<and> status_code r = 401
      \<and> content r = Json response_json
      \<and> list_ex (\<lambda>error. str_in error (get_message response_json)) ignore_errors
     \<longrightarrow> make_request url data retries True ignore_errors s
           = (Ret_response (ignored r),
              s\<lparr>posts := Suc (posts s + k),
                trace := trace s @ failed_attempts url data 0 k @ [Post url data]\<rparr>)
       \<and> fst (make_request url data retries True ignore_errors s) \<noteq> Ret_unauthorized
       \<and> truthy (Ret_response (ignored r)))
   \<and> (fst (profile_request miner_ip tok profile s) = Ret_response (ignored r)
     \<longrightarrow> set_profile depth miner_ip tok profile s
           = (Inr (), emit (Report (Profile_set miner_ip profile)) (snd (profile_request miner_ip tok profile s)))
       \<and> calls (snd (set_profile depth miner_ip tok profile s)) = calls s @ [Call_set_profile miner_ip tok profile])
   \<and> (fst (curtail_request miner_ip tok mode s) = Ret_response (ignored r)
     \<longrightarrow> set_curtail depth miner_ip tok mode s
           = (Inr (), emit (Report (Curtail_set miner_ip mode)) (snd (curtail_request miner_ip tok mode s)))
       \<and> calls (snd (set_curtail depth miner_ip tok mode s)) = calls s @ [Call_set_curtail miner_ip tok mode])"
proof (intro conjI impI)
  assume a: "k < nat retries
      \<and> (\<forall>j<k. retriable True ignore_errors (net s (posts s + j) url data))
      \<and> net s (posts s + k) url data = Responded r \<and> status_code r = 401
      \<and> content r = Json response_json
      \<and> list_ex (\<lambda>error. str_in error (get_message response_json)) ignore_errors"
  then have h: "k < nat retries" "\<forall>j<k. retriable True ignore_errors (net s (posts s + j) url data)"
    "net s (posts s + k) url data = Responded r" "content r = Json response_json"
    "list_ex (\<lambda>error. str_in error (get_message response_json)) ignore_errors"
    by blast+
  from a have n: "status_code r \<noteq> 200" by simp
  show e: "make_request url data retries True ignore_errors s
      = (Ret_response (ignored r),
         s\<lparr>posts := Suc (posts s + k),
           trace := trace s @ failed_attempts url data 0 k @ [Post url data]\<rparr>)"
    using h(1,2,3) n h(4,5) by (rule make_request_ignored_at)
  show "fst (make_request url data retries True ignore_errors s) \<noteq> Ret_unauthorized"
    unfolding e by simp
  show "truthy (Ret_response (ignored r))" by (simp add: ok_ignored)
next
  assume p: "fst (profile_request miner_ip tok profile s) = Ret_response (ignored r)"
  then show "set_profile depth miner_ip tok profile s
      = (Inr (), emit (Report (Profile_set miner_ip profile)) (snd (profile_request miner_ip tok profile s)))"
    by (subst set_profile_unfold) (simp add: ok_ignored)
  from p show "calls (snd (set_profile depth miner_ip tok profile s)) = calls s @ [Call_set_profile miner_ip tok profile]"
    by (subst set_profile_unfold) (simp add: ok_ignored setter_request_frame)
next
  assume p: "fst (curtail_request miner_ip tok mode s) = Ret_response (ignored r)"
  then show "set_curtail depth miner_ip tok mode s
      = (Inr (), emit (Report (Curtail_set miner_ip mode)) (snd (curtail_request miner_ip tok mode s)))"
    by (subst set_curtail_unfold) (simp add: ok_ignored)
  from p show "calls (snd (set_curtail depth miner_ip tok mode s)) = calls s @ [Call_set_curtail miner_ip tok mode]"
    by (subst set_curtail_unfold) (simp add: ok_ignored setter_request_frame)
qed

theorem ignorable_precedes_unauthorized_witness:
  "set_profile 0 ''192.168.0.1'' ''test_token'' ''normal'' raised_then_401_app
     = (Inr (), raised_then_401_app\<lparr>posts := 2,
          trace := [Call_set_profile ''192.168.0.1'' ''test_token'' ''normal'',
                    Post ''http://127.0.0.1:5000/api/profileset''
                      [(''token'', ''test_token''), (''profile'', ''normal'')],
                    Sleep 1,
                    Post ''http://127.0.0.1:5000/api/profileset''
                      [(''token'', ''test_token''), (''profile'', ''normal'')],
                    Report (Profile_set ''192.168.0.1'' ''normal'')]\<rparr>)
   \<and> calls (snd (set_profile 0 ''192.168.0.1'' ''test_token'' ''normal'' raised_then_401_app))
     = [Call_set_profile ''192.168.0.1'' ''test_token'' ''normal'']
   \<and> set_curtail 0 ''192.168.0.1'' ''test_token'' ''active'' already_set_401_app
     = (Inr (), already_set_401_app\<lparr>posts := 1,
          trace := [Call_set_curtail ''192.168.0.1'' ''test_token'' ''active'',
                    Post ''http://127.0.0.1:5000/api/curtail''
                      [(''token'', ''test_token''), (''mode'', ''active'')],
                    Report (Curtail_set ''192.168.0.1'' ''active'')]\<rparr>)
   \<and> calls (snd (set_curtail 0 ''192.168.0.1'' ''test_token'' ''active'' already_set_401_app))
     = [Call_set_curtail ''192.168.0.1'' ''test_token'' ''active'']"
proof -
  let ?ip = "''192.168.0.1''"
  let ?s = raised_then_401_app
  let ?t = already_set_401_app
  let ?j = "map_of [(''message'', ''Miner is already in normal profile.'')]"
  let ?r = "\<lparr>status_code = 401, content = Json ?j\<rparr>"
  let ?i = "map_of [(''message'', ''Miner is already in active mode.'')]"
  let ?q = "\<lparr>status_code = 401, content = Json ?i\<rparr>"
  let ?p = "emit (Call_set_profile ?ip ''test_token'' ''normal'') ?s"
  let ?c = "emit (Call_set_curtail ?ip ''test_token'' ''active'') ?t"
  let ?pd = "[(''token'', ''test_token''), (''profile'', ''normal'')]"
  let ?cd = "[(''token'', ''test_token''), (''mode'', ''active'')]"
  have f: "\<forall>j<Suc 0. retriable True [''Miner is already in''] (net ?p (posts ?p + j) (base_url ?s @ ''/profileset'') ?pd)"
    by (simp add: raised_then_401_app_def run_defs)
  have hp: "Suc 0 < nat (max_retries ?s)
      \<and> (\<forall>j<Suc 0. retriable True [''Miner is already in''] (net ?p (posts ?p + j) (base_url ?s @ ''/profileset'') ?pd))
      \<and> net ?p (posts ?p + Suc 0) (base_url ?s @ ''/profileset'') ?pd = Responded ?r \<and> status_code ?r = 401
      \<and> content ?r = Json ?j \<and> list_ex (\<lambda>error. str_in error (get_message ?j)) [''Miner is already in'']"
    using f by (simp add: raised_then_401_app_def run_defs)
  have hc: "0 < nat (max_retries ?t)
      \<and> (\<forall>j<0. retriable True [''Miner is already in''] (net ?c (posts ?c + j) (base_url ?t @ ''/curtail'') ?cd))
      \<and> net ?c (posts ?c + 0) (base_url ?t @ ''/curtail'') ?cd = Responded ?q \<and> status_code ?q = 401
      \<and> content ?q = Json ?i \<and> list_ex (\<lambda>error. str_in error (get_message ?i)) [''Miner is already in'']"
    by (simp add: already_set_401_app_def run_defs)
  note P = ignorable_precedes_unauthorized [where s = ?p and k = "Suc 0" and r = ?r and response_json = ?j
      and url = "base_url ?s @ ''/profileset''" and data = ?pd
      and ignore_errors = "[''Miner is already in'']" and retries = "max_retries ?s"]
  note C = ignorable_precedes_unauthorized [where s = ?c and k = 0 and r = ?q and response_json = ?i
      and url = "base_url ?t @ ''/curtail''" and data = ?cd
      and ignore_errors = "[''Miner is already in'']" and retries = "max_retries ?t"]
  have rqp: "profile_request ?ip ''test_token'' ''normal'' ?s
      = (Ret_response (ignored ?r), ?p\<lparr>posts := Suc (posts ?p + Suc 0),
           trace := trace ?p @ failed_attempts (base_url ?s @ ''/profileset'') ?pd 0 (Suc 0)
                    @ [Post (base_url ?s @ ''/profileset'') ?pd]\<rparr>)"
    unfolding profile_request_def
    by (rule P [THEN conjunct1, THEN mp, OF hp, THEN conjunct1])
  have rqc: "curtail_request ?ip ''test_token'' ''active'' ?t
      = (Ret_response (ignored ?q), ?c\<lparr>posts := Suc (posts ?c + 0),
           trace := trace ?c @ failed_attempts (base_url ?t @ ''/curtail'') ?cd 0 0
                    @ [Post (base_url ?t @ ''/curtail'') ?cd]\<rparr>)"
    unfolding curtail_request_def
    by (rule C [THEN conjunct1, THEN mp, OF hc, THEN conjunct1])
  have fp: "fst (profile_request ?ip ''test_token'' ''normal'' ?s) = Ret_response (ignored ?r)"
    unfolding rqp by simp
  have fc: "fst (curtail_request ?ip ''test_token'' ''active'' ?t) = Ret_response (ignored ?q)"
    unfolding rqc by simp
  note sp = ignorable_precedes_unauthorized [where s = ?s and r = ?r and miner_ip = ?ip
      and tok = "''test_token''" and profile = "''normal''" and depth = 0,
      THEN conjunct2, THEN conjunct1, THEN mp, OF fp]
  note sc = ignorable_precedes_unauthorized [where s = ?t and r = ?q and miner_ip = ?ip
      and tok = "''test_token''" and mode = "''active''" and depth = 0,
      THEN conjunct2, THEN conjunct2, THEN mp, OF fc]
  have c0: "calls ?s = []" "calls ?t = []"
    by (simp_all add: calls_def raised_then_401_app_def already_set_401_app_def test_app_def)
  have 1: "set_profile 0 ?ip ''test_token'' ''normal'' ?s
     = (Inr (), ?s\<lparr>posts := 2,
          trace := [Call_set_profile ?ip ''test_token'' ''normal'',
                    Post ''http://127.0.0.1:5000/api/profileset'' ?pd, Sleep 1,
                    Post ''http://127.0.0.1:5000/api/profileset'' ?pd,
                    Report (Profile_set ?ip ''normal'')]\<rparr>)"
    unfolding sp [THEN conjunct1] rqp
    by (simp add: failed_attempts_def emit_def raised_then_401_app_def test_app_def)
  have 2: "calls (snd (set_profile 0 ?ip ''test_token'' ''normal'' ?s)) = [Call_set_profile ?ip ''test_token'' ''normal'']"
    unfolding sp [THEN conjunct2] c0 by simp
  have 3: "set_curtail 0 ?ip ''test_token'' ''active'' ?t
     = (Inr (), ?t\<lparr>posts := 1,
          trace := [Call_set_curtail ?ip ''test_token'' ''active'',
                    Post ''http://127.0.0.1:5000/api/curtail'' ?cd,
                    Report (Curtail_set ?ip ''active'')]\<rparr>)"
    unfolding sc [THEN conjunct1] rqc
    by (simp add: emit_def already_set_401_app_def test_app_def)
  have 4: "calls (snd (set_curtail 0 ?ip ''test_token'' ''active'' ?t)) = [Call_set_curtail ?ip ''test_token'' ''active'']"
    unfolding sc [THEN conjunct2] c0 by simp
  from 1 2 3 4 show ?thesis by (intro conjI)
qed

section \<open>The token store\<close>

text \<open>
  C7. When the request of \<^verbatim>\<open>login\<close> returns a response whose JSON object has a non-empty
  token, \<^verbatim>\<open>login\<close> returns that token and the store maps the device to it, with the
  \<open>ttl\<close> of the response or \<open>None\<close> when there is none, whatever was stored before. When the
  token is missing or empty, or the request returned \<^verbatim>\<open>None\<close> after all its attempts,
  \<^verbatim>\<open>login\<close> returns \<^verbatim>\<open>None\<close> and the store is unchanged.
\<close>

theorem login_stores_token:
  "(fst (login_request miner_ip s) = Ret_response r \<and> content r = Json token_data
      \<and> token_data ''token'' = Some t \<and> t \<noteq> []
     \<longrightarrow> fst (login miner_ip s) = Inr (Some t)
       \<and> miner_tokens (snd (login miner_ip s))
           = (miner_tokens s)(miner_ip \<mapsto> \<lparr>token = t, ttl = token_data ''ttl''\<rparr>))
   \<and> (fst (login_request miner_ip s) = Ret_response r \<and> content r = Json token_data
      \<and> (token_data ''token'' = None \<or> token_data ''token'' = Some [])
     \<longrightarrow> fst (login miner_ip s) = Inr None \<and> miner_tokens (snd (login miner_ip s)) = miner_tokens s)
   \<and> (fst (login_request miner_ip s) = Ret_none
     \<longrightarrow> fst (login miner_ip s) = Inr None \<and> miner_tokens (snd (login miner_ip s)) = miner_tokens s)"
  unfolding login_unfold by (auto simp: login_request_frame)

theorem login_stores_token_witness:
  "fst (login ''192.168.0.1'' login_no_ttl_app) = Inr (Some ''test_token'')
   \<and> miner_tokens (snd (login ''192.168.0.1'' login_no_ttl_app))
       = [''192.168.0.1'' \<mapsto> \<lparr>token = ''test_token'', ttl = None\<rparr>]
   \<and> fst (login ''192.168.0.1'' login_missing_token_app) = Inr None
   \<and> miner_tokens (snd (login ''192.168.0.1'' login_missing_token_app)) = Map.empty
   \<and> fst (login ''192.168.0.1'' test_app) = Inr None
   \<and> miner_tokens (snd (login ''192.168.0.1'' test_app)) = Map.empty"
proof -
  let ?a = "map_of [(''token'', ''test_token'')]"
  let ?b = "map_of [(''ttl'', ''2024-01-01T00:01:00'')]"
  have a: "fst (login_request ''192.168.0.1'' login_no_ttl_app) = Ret_response \<lparr>status_code = 200, content = Json ?a\<rparr>
      \<and> content \<lparr>status_code = 200, content = Json ?a\<rparr> = Json ?a \<and> ?a ''token'' = Some ''test_token''
      \<and> ''test_token'' \<noteq> []"
    by (simp add: login_request_def login_no_ttl_app_def run_defs)
  have b: "fst (login_request ''192.168.0.1'' login_missing_token_app) = Ret_response \<lparr>status_code = 200, content = Json ?b\<rparr>
      \<and> content \<lparr>status_code = 200, content = Json ?b\<rparr> = Json ?b
      \<and> (?b ''token'' = None \<or> ?b ''token'' = Some [])"
    by (simp add: login_request_def login_missing_token_app_def run_defs)
  have c: "fst (login_request ''192.168.0.1'' test_app) = Ret_none"
    by (simp add: login_request_def run_defs)
  have m: "miner_tokens login_no_ttl_app = Map.empty" "miner_tokens login_missing_token_app = Map.empty"
    "miner_tokens test_app = Map.empty" "?a ''ttl'' = None"
    by (simp_all add: login_no_ttl_app_def login_missing_token_app_def test_app_def)
  show ?thesis
    using a b c
      login_stores_token [where s = login_no_ttl_app and miner_ip = "''192.168.0.1''"
        and r = "\<lparr>status_code = 200, content = Json ?a\<rparr>" and token_data = ?a and t = "''test_token''"]
      login_stores_token [where s = login_missing_token_app and miner_ip = "''192.168.0.1''"
        and r = "\<lparr>status_code = 200, content = Json ?b\<rparr>" and token_data = ?b]
      login_stores_token [where s = test_app and miner_ip = "''192.168.0.1''"]
    unfolding m by blast
qed

text \<open>
  C8. When the request of \<^verbatim>\<open>logout\<close> returns a response, the entry of the device is
  removed from the store; without an entry the store is unchanged and nothing is raised.
  When the request returned \<^verbatim>\<open>None\<close> after all its attempts, the store is unchanged.
\<close>

theorem logout_removes_token:
  "(fst (logout_request miner_ip s) \<noteq> Ret_none
     \<longrightarrow> fst (logout miner_ip s) = Inr ()
       \<and> miner_tokens (snd (logout miner_ip s)) = (miner_tokens s)(miner_ip := None))
   \<and> (fst (logout_request miner_ip s) \<noteq> Ret_none \<and> miner_tokens s miner_ip = None
     \<longrightarrow> miner_tokens (snd (logout miner_ip s)) = miner_tokens s)
   \<and> (fst (logout_request miner_ip s) = Ret_none
     \<longrightarrow> fst (logout miner_ip s) = Inr () \<and> miner_tokens (snd (logout miner_ip s)) = miner_tokens s)"
  unfolding logout_unfold by (auto simp: logout_request_frame split: ret.splits)

theorem logout_removes_token_witness:
  "miner_tokens (snd (logout ''192.168.0.1'' (logged_in_app\<lparr>net := replies [resp 200 []]\<rparr>))) = Map.empty
   \<and> miner_tokens (snd (logout ''192.168.0.1'' (test_app\<lparr>net := replies [resp 200 []]\<rparr>))) = Map.empty
   \<and> fst (logout ''192.168.0.1'' (test_app\<lparr>net := replies [resp 200 []]\<rparr>)) = Inr ()
   \<and> miner_tokens (snd (logout ''192.168.0.1'' logged_in_app))
       = [''192.168.0.1'' \<mapsto> \<lparr>token = ''test_token'', ttl = None\<rparr>]"
proof -
  let ?s = "logged_in_app\<lparr>net := replies [resp 200 []]\<rparr>"
  let ?t = "test_app\<lparr>net := replies [resp 200 []]\<rparr>"
  have a: "fst (logout_request ''192.168.0.1'' ?s) \<noteq> Ret_none"
    by (simp add: logout_request_def logged_in_app_def run_defs)
  have b: "fst (logout_request ''192.168.0.1'' ?t) \<noteq> Ret_none \<and> miner_tokens ?t ''192.168.0.1'' = None"
    by (simp add: logout_request_def run_defs)
  have c: "fst (logout_request ''192.168.0.1'' logged_in_app) = Ret_none"
    by (simp add: logout_request_def logged_in_app_def run_defs)
  have m: "(miner_tokens ?s)(''192.168.0.1'' := None) = Map.empty" "miner_tokens ?t = Map.empty"
    "miner_tokens logged_in_app = [''192.168.0.1'' \<mapsto> \<lparr>token = ''test_token'', ttl = None\<rparr>]"
    by (simp_all add: logged_in_app_def test_app_def)
  show ?thesis
    using a b c
      logout_removes_token [where s = ?s and miner_ip = "''192.168.0.1''"]
      logout_removes_token [where s = ?t and miner_ip = "''192.168.0.1''"]
      logout_removes_token [where s = logged_in_app and miner_ip = "''192.168.0.1''"]
    unfolding m by blast
qed

section \<open>Recovery from an unauthorized token\<close>

























section \<open>Properties of the device cycle runner\<close>








section \<open>Properties of the fleet scheduler\<close>

text \<open>
  With a bounded cycle count the loop ends before it sleeps; with the next transition
  still ahead it sleeps for the difference and goes on to the next cycle; with the next
  transition already past, the negative argument makes \<^verbatim>\<open>time.sleep\<close> raise and the
  exception leaves \<^verbatim>\<open>start\<close>.
\<close>

lemma start_one_cycle_returns:
  "\<exists>s'. start (Suc fuel) depth (Some 1) s = Some (Inr (), s')"
  unfolding start_def by (simp add: Let_def split: prod.splits)

lemma cycle_loop_sleeps_when_ahead:
  assumes "timestamp (fst (now_utc (executor_map depth (miner_ips s) (snd (determine_mode s)))))
      \<le> timestamp (next_transition_of (determine_mode s))"
  shows "\<exists>s'. cycle_loop (Suc fuel) depth None cycle_count s = cycle_loop fuel depth None cycle_count s'
    \<and> last (trace s') = Sleep_until (timestamp (next_transition_of (determine_mode s))
         - timestamp (fst (now_utc (executor_map depth (miner_ips s) (snd (determine_mode s))))))"
proof -
  obtain pf cm nt s1 where d: "determine_mode s = ((pf, cm, nt), s1)"
    by (metis prod.collapse)
  have ips: "miner_ips s1 = miner_ips s"
    using d by (auto simp: determine_mode_def now_utc_def Let_def split: if_splits)
  show ?thesis
    using assms
    by (auto simp: d ips next_transition_of_def sleep_until_def Let_def split: prod.splits)
qed

lemma start_overrun_raises:
  assumes "timestamp (next_transition_of (determine_mode s))
      < timestamp (fst (now_utc (executor_map depth (miner_ips s) (snd (determine_mode s)))))"
  shows "map_option fst (start (Suc fuel) depth None s) = Some (Inl ValueError)"
proof -
  obtain pf cm nt s1 where d: "determine_mode s = ((pf, cm, nt), s1)"
    by (metis prod.collapse)
  have ips: "miner_ips s1 = miner_ips s"
    using d by (auto simp: determine_mode_def now_utc_def Let_def split: if_splits)
  show ?thesis
    using assms unfolding start_def
    by (auto simp: d ips next_transition_of_def sleep_until_def Let_def split: prod.splits)
qed

text \<open>
  C3 asks that the scheduler goes on to the next dispatch without error when the next
  transition is already past after the batch. At 05:59:58, with one device whose login
  fails after seven seconds of backoff, the batch ends at 06:00:05: \<^verbatim>\<open>sleep_time\<close> is
  negative, \<^verbatim>\<open>time.sleep\<close> raises \<^verbatim>\<open>ValueError\<close> and \<^verbatim>\<open>start\<close> ends with that
  exception after its first cycle.
\<close>

theorem start_negative_sleep:
  "map_option fst (start (Suc fuel) depth None overrun_app) = Some (Inl ValueError)"
  by (simp add: start_def determine_mode_def now_utc_def process_miner_def login_def Let_def
        sleep_until_def timestamp_def overrun_app_def run_defs)

end
